theory Spec2Isabelle
  imports Main "HOL-Library.AList"
begin

section \<open>The subscription store: data model\<close>

text \<open>
  The store lives in the module that starts with \<^verbatim>\<open>import { produce } from "immer"\<close>
  (the second document of \<^verbatim>\<open>recommendations-card.tsx\<close>).  A feed id is a string; the
  six view types are the keys of \<^verbatim>\<open>emptyDataIdByView\<close>.
\<close>

type_synonym FeedId = string

datatype FeedViewType = Articles | SocialMedia | Pictures | Videos | Audios | Notifications

text \<open>
  A JavaScript value of type \<^verbatim>\<open>string | null | undefined\<close> is a \<^typ>\<open>string option\<close>:
  \<open>None\<close> stands for both \<^verbatim>\<open>null\<close> and \<^verbatim>\<open>undefined\<close>, which the store never tells apart
  (it only tests truthiness and \<^verbatim>\<open>===\<close> against a string).  \<open>truthy\<close> is the JavaScript
  truthiness of such a value: \<^verbatim>\<open>null\<close>, \<^verbatim>\<open>undefined\<close> and the empty string are falsy.
\<close>

fun truthy :: "string option \<Rightarrow> bool" where
  "truthy None = False"
| "truthy (Some s) = (s \<noteq> [])"

text \<open>Of a feed record the store reads \<^verbatim>\<open>siteUrl\<close> only.\<close>

record FeedModel =
  siteUrl :: "string option"

text \<open>
  \<^verbatim>\<open>SubscriptionModel\<close> is what the API returns (it carries the feed record in \<^verbatim>\<open>feeds\<close>);
  \<^verbatim>\<open>SubscriptionFlatModel = Omit<SubscriptionModel, "feeds"> & { defaultCategory?: string }\<close>
  is what the store keeps.  Only the fields the store touches are modelled.
\<close>

record SubscriptionBase =
  feedId :: FeedId
  view :: FeedViewType
  category :: "string option"

record SubscriptionModel = SubscriptionBase +
  feeds :: "FeedModel option"

record SubscriptionFlatModel = SubscriptionBase +
  defaultCategory :: "string option"

text \<open>
  \<^verbatim>\<open>data: Record<FeedId, SubscriptionFlatModel>\<close> is an association list in insertion order
  (the order in which \<^verbatim>\<open>for ... in\<close> and \<^verbatim>\<open>Object.keys\<close> enumerate keys that are not array
  indices): \<open>map_of\<close> reads a key, \<open>AList.update\<close> assigns one (in place when present, at
  the end otherwise) and \<open>AList.delete\<close> is \<^verbatim>\<open>delete\<close>.  No result below depends on the order.  \<^verbatim>\<open>feedIdByView: Record<FeedViewType, FeedId[]>\<close> has all
  six keys, so it is a total function to arrays.
\<close>

record SubscriptionState =
  data :: "(FeedId \<times> SubscriptionFlatModel) list"
  feedIdByView :: "FeedViewType \<Rightarrow> FeedId list"

definition emptyDataIdByView :: "FeedViewType \<Rightarrow> FeedId list" where
  "emptyDataIdByView = (\<lambda>_. [])"

text \<open>The initial value of \<^verbatim>\<open>useSubscriptionStore\<close>.\<close>

definition initialState :: SubscriptionState where
  "initialState = \<lparr>data = [], feedIdByView = emptyDataIdByView\<rparr>"

datatype error = RemoteRejected

section \<open>JavaScript array primitives\<close>

text \<open>\<^verbatim>\<open>Array.prototype.indexOf\<close>: the first index of the element, or \<open>-1\<close>.\<close>

fun indexOf :: "'a list \<Rightarrow> 'a \<Rightarrow> int" where
  "indexOf [] x = - 1"
| "indexOf (y # ys) x =
     (if y = x then 0 else (let i = indexOf ys x in if i < 0 then - 1 else i + 1))"

text \<open>
  \<^verbatim>\<open>xs.splice(start, 1)\<close>: a negative \<open>start\<close> counts from the end (and is clamped to 0), a
  \<open>start\<close> beyond the length is clamped to the length; one element is removed at the
  resulting position when there is one.
\<close>

definition splice1 :: "int \<Rightarrow> 'a list \<Rightarrow> 'a list" where
  "splice1 start xs =
     (let len = int (length xs);
          actualStart = (if start < 0 then max (len + start) 0 else min start len)
      in take (nat actualStart) xs @ drop (nat actualStart + 1) xs)"

section \<open>Deriving the default category\<close>

text \<open>
  Modelled from the spec: \<^verbatim>\<open>capitalizeFirstLetter\<close> (\<^verbatim>\<open>~/lib/utils\<close>) is not among the sources.
  The spec calls its result "the capitalized domain": the first character is put in upper
  case (ASCII letters here), the rest is kept.
\<close>

definition toUpperCase :: "char \<Rightarrow> char" where
  "toUpperCase c =
     (let n = (of_char c :: nat) in if 97 \<le> n \<and> n \<le> 122 then char_of (n - 32) else c)"

fun capitalizeFirstLetter :: "string \<Rightarrow> string" where
  "capitalizeFirstLetter [] = []"
| "capitalizeFirstLetter (c # cs) = toUpperCase c # cs"

text \<open>
  The body of the loop of \<^verbatim>\<open>morphResponseData\<close>.  The parameter \<open>parse\<close> stands for
  \<^verbatim>\<open>parse(siteUrl).domain\<close> of the library \<^verbatim>\<open>tldts\<close> (the registrable domain, or \<^verbatim>\<open>null\<close>).
  \<^verbatim>\<open>cloned\<close> starts as a copy of the subscription, so its \<^verbatim>\<open>defaultCategory\<close> is undefined.
\<close>

definition morphSubscription ::
  "(string \<Rightarrow> string option) \<Rightarrow> SubscriptionModel \<Rightarrow> SubscriptionFlatModel" where
  "morphSubscription parse subscription =
     (let cloned = \<lparr>feedId = feedId subscription, view = view subscription,
                     category = category subscription, defaultCategory = None\<rparr>
      in if \<not> truthy (category subscription) \<and> feeds subscription \<noteq> None then
           (let siteUrl' = siteUrl (the (feeds subscription))
            in if \<not> truthy siteUrl' then cloned\<lparr>defaultCategory := Some (feedId subscription)\<rparr>
               else (let parsed = parse (the siteUrl')
                     in if truthy parsed
                        then cloned\<lparr>defaultCategory := Some (capitalizeFirstLetter (the parsed))\<rparr>
                        else cloned\<lparr>defaultCategory := Some (feedId subscription)\<rparr>))
         else cloned)"

fun morphResponseData ::
  "(string \<Rightarrow> string option) \<Rightarrow> SubscriptionModel list \<Rightarrow> SubscriptionFlatModel list" where
  "morphResponseData parse [] = []"
| "morphResponseData parse (subscription # rest) =
     morphSubscription parse subscription # morphResponseData parse rest"

section \<open>The actions\<close>

subsection \<open>upsertMany and fetchByView\<close>

text \<open>
  One round of the \<^verbatim>\<open>forEach\<close> of \<^verbatim>\<open>upsertMany\<close>: the subscription is stored under its
  feed id and the feed id is pushed onto the bucket of its view, with no look at what
  the bucket holds.  The write to \<^verbatim>\<open>SubscriptionService\<close> goes to the database only.
\<close>

definition upsertOne :: "SubscriptionFlatModel \<Rightarrow> SubscriptionState \<Rightarrow> SubscriptionState" where
  "upsertOne subscription state =
     state\<lparr>data := AList.update (feedId subscription) subscription (data state),
           feedIdByView := (feedIdByView state)
             (view subscription := feedIdByView state (view subscription) @ [feedId subscription])\<rparr>"

definition upsertMany :: "SubscriptionFlatModel list \<Rightarrow> SubscriptionState \<Rightarrow> SubscriptionState" where
  "upsertMany subscriptions state = fold upsertOne subscriptions state"

text \<open>
  \<^verbatim>\<open>fetchByView(view?)\<close>.  \<open>res\<close> is the outcome of the request: a rejected request throws
  before anything is set.  The feed store, which receives the \<^verbatim>\<open>feeds\<close> records, is not
  part of the subscription state.
\<close>

definition fetchByView ::
  "(string \<Rightarrow> string option) \<Rightarrow> FeedViewType option \<Rightarrow> error + SubscriptionModel list \<Rightarrow>
     SubscriptionState \<Rightarrow> (error + SubscriptionModel list) \<times> SubscriptionState" where
  "fetchByView parse viewArg res state =
     (case res of
        Inl e \<Rightarrow> (Inl e, state)
      | Inr resData \<Rightarrow>
          (let state1 = (case viewArg of
                           Some v \<Rightarrow> state\<lparr>feedIdByView := (feedIdByView state)(v := [])\<rparr>
                         | None \<Rightarrow> state\<lparr>feedIdByView := emptyDataIdByView\<rparr>);
               transformedData = morphResponseData parse resData
           in (Inr resData, upsertMany transformedData state1)))"


subsection \<open>The mutation helper and the sibling stores\<close>

text \<open>
  The actions also write to two sibling stores, the unread counts and the entries,
  through \<^verbatim>\<open>feedUnreadActions\<close> and \<^verbatim>\<open>entryActions\<close>.  Those modules are not among the
  sources, so the two stores are type parameters and the four actions used here are
  parameters: any functions on the stores.  \<^verbatim>\<open>patchManyByFeedId\<close> is always called with
  \<^verbatim>\<open>{ read: true }\<close>; \<^verbatim>\<open>fetchUnreadByView\<close> may be called with an undefined view.
\<close>

record MarkReadFilter =
  startTime :: int
  endTime :: int

record ('u, 'e) Stores =
  subscriptionState :: SubscriptionState
  unreadStore :: 'u
  entryStore :: 'e

record ('u, 'e) Actions =
  updateByFeedId :: "FeedId \<Rightarrow> nat \<Rightarrow> 'u \<Rightarrow> 'u"
  fetchUnreadByView :: "FeedViewType option \<Rightarrow> 'u \<Rightarrow> 'u"
  patchManyByFeedId :: "FeedId \<Rightarrow> MarkReadFilter option \<Rightarrow> 'e \<Rightarrow> 'e"
  clearByFeedId :: "FeedId \<Rightarrow> 'e \<Rightarrow> 'e"

record MutationAndTransactionOptions =
  doTranscationWhenMutationFail :: bool
  waitMutation :: bool

text \<open>
  Modelled from the spec: \<^verbatim>\<open>doMutationAndTransaction\<close> (\<^verbatim>\<open>../utils/helper\<close>) is not among
  the sources.  The spec: "remote-first operations (markReadBy*, deleteCategory) do not
  apply local effects unless the remote call succeeds", "remote-first operations treat any
  rejection as no local effect applied", and "any remote failure is surfaced to the caller
  as a rejected outcome".  So the helper runs the remote mutation (\<open>mutationOk\<close> says
  whether it resolved) and then the local transaction; after a rejected mutation the
  transaction runs only when the caller asked for it with
  \<^verbatim>\<open>doTranscationWhenMutationFail\<close>.  \<^verbatim>\<open>markReadByView\<close> and \<^verbatim>\<open>markReadByFeedIds\<close> pass no
  options, so the same holds with the options left out.  The spec gives \<^verbatim>\<open>waitMutation\<close>
  no effect on the stores.
\<close>

definition doMutationAndTransaction ::
  "bool \<Rightarrow> ('w \<Rightarrow> 'w) \<Rightarrow> MutationAndTransactionOptions option \<Rightarrow> 'w \<Rightarrow> (error + unit) \<times> 'w" where
  "doMutationAndTransaction mutationOk transaction options w =
     (if mutationOk then (Inr (), transaction w)
      else (Inl RemoteRejected,
            if (case options of None \<Rightarrow> False | Some opts \<Rightarrow> doTranscationWhenMutationFail opts)
            then transaction w else w))"

subsection \<open>markReadByView and markReadByFeedIds\<close>

text \<open>
  The local transaction of \<^verbatim>\<open>markReadByView\<close>: \<^verbatim>\<open>state\<close> is read once, then every key of
  \<^verbatim>\<open>state.data\<close> whose subscription has the view is processed.  (A key always has a
  value, so the \<open>None\<close> branch is never taken.)
\<close>

definition markReadByView_transaction ::
  "('u, 'e) Actions \<Rightarrow> FeedViewType \<Rightarrow> MarkReadFilter option \<Rightarrow> ('u, 'e) Stores \<Rightarrow> ('u, 'e) Stores" where
  "markReadByView_transaction acts v filter' w =
     (let state = subscriptionState w;
          w1 = fold (\<lambda>fid w.
                 case map_of (data state) fid of
                   None \<Rightarrow> w
                 | Some s \<Rightarrow>
                     if view s = v then
                       (let w' = (if filter' = None
                                  then w\<lparr>unreadStore := updateByFeedId acts fid 0 (unreadStore w)\<rparr>
                                  else w)
                        in w'\<lparr>entryStore := patchManyByFeedId acts fid filter' (entryStore w')\<rparr>)
                     else w)
               (map fst (data state)) w
      in if filter' \<noteq> None
         then w1\<lparr>unreadStore := fetchUnreadByView acts (Some v) (unreadStore w1)\<rparr>
         else w1)"

text \<open>
  \<^verbatim>\<open>markReadByView\<close> does not await the helper and returns nothing: what is modelled is
  the stores once the helper has finished.
\<close>

definition markReadByView ::
  "('u, 'e) Actions \<Rightarrow> bool \<Rightarrow> FeedViewType \<Rightarrow> MarkReadFilter option \<Rightarrow> ('u, 'e) Stores \<Rightarrow> ('u, 'e) Stores" where
  "markReadByView acts mutationOk v filter' w =
     snd (doMutationAndTransaction mutationOk (markReadByView_transaction acts v filter') None w)"

definition markReadByFeedIds_transaction ::
  "('u, 'e) Actions \<Rightarrow> FeedId list \<Rightarrow> FeedViewType option \<Rightarrow> MarkReadFilter option \<Rightarrow>
     ('u, 'e) Stores \<Rightarrow> ('u, 'e) Stores" where
  "markReadByFeedIds_transaction acts stableFeedIds viewArg filter' w =
     (let w1 = fold (\<lambda>fid w.
                 (let w' = (if filter' = None
                            then w\<lparr>unreadStore := updateByFeedId acts fid 0 (unreadStore w)\<rparr>
                            else w)
                  in w'\<lparr>entryStore := patchManyByFeedId acts fid filter' (entryStore w')\<rparr>))
               stableFeedIds w
      in if filter' \<noteq> None
         then w1\<lparr>unreadStore := fetchUnreadByView acts viewArg (unreadStore w1)\<rparr>
         else w1)"

definition markReadByFeedIds ::
  "('u, 'e) Actions \<Rightarrow> bool \<Rightarrow> FeedId list \<Rightarrow> FeedViewType option \<Rightarrow> MarkReadFilter option \<Rightarrow>
     ('u, 'e) Stores \<Rightarrow> ('u, 'e) Stores" where
  "markReadByFeedIds acts mutationOk feedIds viewArg filter' w =
     snd (doMutationAndTransaction mutationOk
            (markReadByFeedIds_transaction acts feedIds viewArg filter') None w)"

subsection \<open>deleteCategory\<close>

text \<open>
  One round of the \<^verbatim>\<open>forEach\<close> over \<^verbatim>\<open>Object.keys(state.data)\<close>.  \<open>getFeedById\<close> reads the
  feed store, a parameter.  The two \<^verbatim>\<open>return\<close>s (no feed record, no site URL) come before
  \<^verbatim>\<open>subscription.category = null\<close>.
\<close>

definition deleteCategory_one ::
  "(FeedId \<Rightarrow> FeedModel option) \<Rightarrow> (string \<Rightarrow> string option) \<Rightarrow> FeedId list \<Rightarrow> FeedId \<Rightarrow>
     (FeedId \<times> SubscriptionFlatModel) list \<Rightarrow> (FeedId \<times> SubscriptionFlatModel) list" where
  "deleteCategory_one getFeedById parse ids fid d =
     (if fid \<in> set ids then
        (case map_of d fid of
           None \<Rightarrow> d
         | Some subscription \<Rightarrow>
             (case getFeedById (feedId subscription) of
                None \<Rightarrow> d
              | Some feed \<Rightarrow>
                  if \<not> truthy (siteUrl feed) then d
                  else (let parsed = parse (the (siteUrl feed));
                            subscription1 = subscription\<lparr>category := None\<rparr>;
                            subscription2 =
                              (if truthy parsed
                               then subscription1\<lparr>defaultCategory :=
                                      Some (capitalizeFirstLetter (the parsed))\<rparr>
                               else subscription1)
                        in AList.update fid subscription2 d)))
      else d)"

definition deleteCategory_transaction ::
  "(FeedId \<Rightarrow> FeedModel option) \<Rightarrow> (string \<Rightarrow> string option) \<Rightarrow> FeedId list \<Rightarrow>
     SubscriptionState \<Rightarrow> SubscriptionState" where
  "deleteCategory_transaction getFeedById parse ids state =
     state\<lparr>data := fold (deleteCategory_one getFeedById parse ids) (map fst (data state)) (data state)\<rparr>"

text \<open>
  The options are the ones the source passes.  After the \<^verbatim>\<open>set\<close> the transaction writes
  the listed subscriptions to the database, which is not modelled.
\<close>

definition deleteCategory ::
  "(FeedId \<Rightarrow> FeedModel option) \<Rightarrow> (string \<Rightarrow> string option) \<Rightarrow> bool \<Rightarrow> FeedId list \<Rightarrow>
     SubscriptionState \<Rightarrow> (error + unit) \<times> SubscriptionState" where
  "deleteCategory getFeedById parse mutationOk ids state =
     doMutationAndTransaction mutationOk (deleteCategory_transaction getFeedById parse ids)
       (Some \<lparr>doTranscationWhenMutationFail = False, waitMutation = True\<rparr>) state"

subsection \<open>unfollow\<close>

text \<open>
  The \<^verbatim>\<open>produce\<close> of \<^verbatim>\<open>unfollow\<close>: the key is deleted, then every bucket is spliced at
  \<^verbatim>\<open>indexOf(feedId)\<close>, whatever \<^verbatim>\<open>indexOf\<close> returned.  Each round of the loop over the
  buckets touches its own bucket only.
\<close>

definition unfollow_draft :: "FeedId \<Rightarrow> SubscriptionState \<Rightarrow> SubscriptionState" where
  "unfollow_draft fid draft =
     draft\<lparr>data := AList.delete fid (data draft),
           feedIdByView := (\<lambda>v. splice1 (indexOf (feedIdByView draft v) fid) (feedIdByView draft v))\<rparr>"

text \<open>
  The local effects come first; the helper then issues the remote delete, and its
  transaction writes to the database only.  The result is the feed record read at the
  start, or the rejection.
\<close>

definition unfollow ::
  "('u, 'e) Actions \<Rightarrow> (FeedId \<Rightarrow> FeedModel option) \<Rightarrow> bool \<Rightarrow> FeedId \<Rightarrow> ('u, 'e) Stores \<Rightarrow>
     (error + FeedModel option) \<times> ('u, 'e) Stores" where
  "unfollow acts getFeedById mutationOk fid w =
     (let feed = getFeedById fid;
          w1 = w\<lparr>subscriptionState := unfollow_draft fid (subscriptionState w)\<rparr>;
          w2 = w1\<lparr>entryStore := clearByFeedId acts fid (entryStore w1)\<rparr>;
          w3 = w2\<lparr>unreadStore := updateByFeedId acts fid 0 (unreadStore w2)\<rparr>;
          r = doMutationAndTransaction mutationOk (\<lambda>w. w) None w3
      in (case fst r of Inl e \<Rightarrow> Inl e | Inr u \<Rightarrow> Inr feed, snd r))"

subsection \<open>changeCategoryView\<close>

text \<open>A subscription is in the folder when its category or its default category is the name.\<close>

definition inCategory :: "string \<Rightarrow> SubscriptionFlatModel \<Rightarrow> bool" where
  "inCategory c s = (category s = Some c \<or> defaultCategory s = Some c)"

definition folderFeedIds :: "string \<Rightarrow> FeedViewType \<Rightarrow> SubscriptionState \<Rightarrow> FeedId list" where
  "folderFeedIds c currentView state =
     filter (\<lambda>fid. case map_of (data state) fid of None \<Rightarrow> False | Some s \<Rightarrow> inCategory c s)
       (feedIdByView state currentView)"

text \<open>
  One round of the loop inside \<^verbatim>\<open>produce\<close>.  The two arrays are read from the draft, so
  they are one array when the two views are the same.
\<close>

definition changeCategoryView_one ::
  "FeedViewType \<Rightarrow> FeedViewType \<Rightarrow> FeedId \<Rightarrow> SubscriptionState \<Rightarrow> SubscriptionState" where
  "changeCategoryView_one currentView changeToView fid state =
     (let data1 = (case map_of (data state) fid of
                     None \<Rightarrow> data state
                   | Some feed \<Rightarrow> AList.update fid (feed\<lparr>view := changeToView\<rparr>) (data state));
          byView1 = (feedIdByView state)
                      (currentView := splice1 (indexOf (feedIdByView state currentView) fid)
                                        (feedIdByView state currentView));
          byView2 = byView1(changeToView := byView1 changeToView @ [fid])
      in state\<lparr>data := data1, feedIdByView := byView2\<rparr>)"

text \<open>
  \<open>patchOk\<close> says which of the remote patches resolve: \<^verbatim>\<open>Promise.all\<close> rejects when one of
  them does, and then nothing is set.  The folder is read before the patches are awaited
  and the state is set after; no other action is taken to run in between.  The writes to
  the database that follow are not modelled.
\<close>

definition changeCategoryView ::
  "(FeedId \<Rightarrow> bool) \<Rightarrow> string \<Rightarrow> FeedViewType \<Rightarrow> FeedViewType \<Rightarrow> SubscriptionState \<Rightarrow>
     (error + unit) \<times> SubscriptionState" where
  "changeCategoryView patchOk c currentView changeToView state =
     (let ids = folderFeedIds c currentView state
      in if list_all patchOk ids
         then (Inr (), fold (changeCategoryView_one currentView changeToView) ids state)
         else (Inl RemoteRejected, state))"

subsection \<open>renameCategory\<close>

definition renameCategory_one ::
  "string \<Rightarrow> FeedId \<Rightarrow> (FeedId \<times> SubscriptionFlatModel) list \<Rightarrow> (FeedId \<times> SubscriptionFlatModel) list" where
  "renameCategory_one newCategory fid d =
     (case map_of d fid of
        None \<Rightarrow> d
      | Some subscription \<Rightarrow>
          AList.update fid (subscription\<lparr>category := Some newCategory, defaultCategory := None\<rparr>) d)"

text \<open>
  The ids are collected and the state is set before the helper is called; the helper's
  transaction writes to the database only.
\<close>

definition renameCategory ::
  "bool \<Rightarrow> string \<Rightarrow> string \<Rightarrow> SubscriptionState \<Rightarrow> (error + unit) \<times> SubscriptionState" where
  "renameCategory mutationOk lastCategory newCategory state =
     (let subscriptionIds =
            filter (\<lambda>fid. case map_of (data state) fid of
                            None \<Rightarrow> False
                          | Some s \<Rightarrow> inCategory lastCategory s)
              (map fst (data state));
          state1 = state\<lparr>data := fold (renameCategory_one newCategory) subscriptionIds (data state)\<rparr>
      in doMutationAndTransaction mutationOk (\<lambda>s. s) None state1)"

section \<open>The state invariant\<close>


definition viewOf :: "SubscriptionState \<Rightarrow> FeedId \<Rightarrow> FeedViewType option" where
  "viewOf state fid = map_option view (map_of (data state) fid)"


section \<open>Sample inputs\<close>

text \<open>
  Small sibling stores for the examples: the unread counts as an association list, the
  entries as pairs of a feed id and a read flag.
\<close>

definition sampleActions :: "((FeedId \<times> nat) list, (FeedId \<times> bool) list) Actions" where
  "sampleActions =
     \<lparr>updateByFeedId = (\<lambda>fid n u. AList.update fid n u),
      fetchUnreadByView = (\<lambda>v u. u),
      patchManyByFeedId = (\<lambda>fid flt e. map (\<lambda>p. if fst p = fid then (fst p, True) else p) e),
      clearByFeedId = (\<lambda>fid e. filter (\<lambda>p. fst p \<noteq> fid) e)\<rparr>"

definition sampleSubscription :: "FeedId \<Rightarrow> FeedViewType \<Rightarrow> string option \<Rightarrow> SubscriptionFlatModel" where
  "sampleSubscription fid v c = \<lparr>feedId = fid, view = v, category = c, defaultCategory = None\<rparr>"

definition sampleStores ::
  "SubscriptionState \<Rightarrow> ((FeedId \<times> nat) list, (FeedId \<times> bool) list) Stores" where
  "sampleStores state =
     \<lparr>subscriptionState = state, unreadStore = [(''f1'', 3)], entryStore = [(''f1'', False)]\<rparr>"

text \<open>
  For the site URL of the spec's scenario, \<^verbatim>\<open>tldts\<close> gives the registrable domain
  \<^verbatim>\<open>example.com\<close>; the sample knows no other URL.
\<close>

definition sampleParse :: "string \<Rightarrow> string option" where
  "sampleParse url = (if url = ''https://blog.example.com'' then Some ''example.com'' else None)"

text \<open>
  A response with the subscription of the spec's scenario and one that carries no feed
  record.
\<close>

definition sampleResponse :: "SubscriptionModel list" where
  "sampleResponse =
     [\<lparr>feedId = ''f1'', view = Articles, category = None,
       feeds = Some \<lparr>siteUrl = Some ''https://blog.example.com''\<rparr>\<rparr>,
      \<lparr>feedId = ''f2'', view = Videos, category = None, feeds = None\<rparr>]"

section \<open>Arrays: indexOf and splice\<close>

lemma indexOf_notin: "x \<notin> set xs \<Longrightarrow> indexOf xs x = - 1"
  by (induction xs) (auto simp: Let_def)

lemma indexOf_in: "x \<in> set xs \<Longrightarrow> 0 \<le> indexOf xs x \<and> indexOf xs x < int (length xs)"
  by (induction xs) (auto simp: Let_def)

lemma take_drop_indexOf:
  "x \<in> set xs \<Longrightarrow>
     take (nat (indexOf xs x)) xs @ drop (Suc (nat (indexOf xs x))) xs = remove1 x xs"
proof (induction xs)
  case Nil
  then show ?case by simp
next
  case (Cons y ys)
  show ?case
  proof (cases "y = x")
    case True
    then show ?thesis by simp
  next
    case False
    with Cons.prems have mem: "x \<in> set ys" by simp
    then have nonneg: "0 \<le> indexOf ys x" by (simp add: indexOf_in)
    then have "nat (indexOf ys x + 1) = Suc (nat (indexOf ys x))" by simp
    with False nonneg Cons.IH [OF mem] show ?thesis by (simp add: Let_def)
  qed
qed

text \<open>
  Splicing at \<^verbatim>\<open>indexOf\<close> removes the first occurrence when there is one, and the last
  element of the array when there is none (\<^verbatim>\<open>splice(-1, 1)\<close>).
\<close>

lemma splice1_indexOf:
  "splice1 (indexOf xs x) xs = (if x \<in> set xs then remove1 x xs else butlast xs)"
proof (cases "x \<in> set xs")
  case True
  then have "0 \<le> indexOf xs x" "indexOf xs x < int (length xs)" by (simp_all add: indexOf_in)
  with True show ?thesis using take_drop_indexOf [OF True] by (simp add: splice1_def Let_def min_def)
next
  case False
  then show ?thesis
    by (cases "xs = []")
       (simp_all add: indexOf_notin splice1_def Let_def max_def butlast_conv_take nat_diff_distrib)
qed



lemma notin_remove1_count: "count_list xs x \<le> 1 \<Longrightarrow> x \<notin> set (remove1 x xs)"
  by (induction xs) (auto simp: count_list_0_iff)

lemma notin_splice1_indexOf: "count_list xs x \<le> 1 \<Longrightarrow> x \<notin> set (splice1 (indexOf xs x) xs)"
  by (auto simp: splice1_indexOf notin_remove1_count dest: in_set_butlastD)

section \<open>Loops over the keys of the data map\<close>

text \<open>
  A loop whose rounds rewrite the entry of their own key with an idempotent \<open>g k\<close> rewrites
  exactly the entries of the keys it visits.
\<close>

lemma map_of_fold_each:
  assumes step: "\<And>d k. map_of (step k d) = (map_of d)(k := map_option (g k) (map_of d k))"
    and idem: "\<And>k s. g k (g k s) = g k s"
  shows "map_of (fold step ks d) k =
           (if k \<in> set ks then map_option (g k) (map_of d k) else map_of d k)"
proof (induction ks arbitrary: d)
  case Nil
  then show ?case by simp
next
  case (Cons a ks)
  have "map_of (fold step (a # ks) d) k =
          (if k \<in> set ks then map_option (g k) (map_of (step a d) k) else map_of (step a d) k)"
    using Cons.IH [of "step a d"] by simp
  then show ?case
    by (cases "map_of d a") (auto simp: step idem)
qed


section \<open>unfollow\<close>

lemma unfollow_subscriptionState:
  "subscriptionState (snd (unfollow acts getFeedById mutationOk fid w)) =
     unfollow_draft fid (subscriptionState w)"
  by (simp add: unfollow_def doMutationAndTransaction_def Let_def)

text \<open>
  Claim C9.  \<^verbatim>\<open>unfollow(feedId)\<close> removes the last element of every non-empty view bucket
  that does not contain \<^verbatim>\<open>feedId\<close>: the bucket before is the bucket after followed by its
  former last element, a feed id other than the unfollowed one.  This holds whether the
  remote delete succeeds or not.
\<close>

theorem unfollow_drops_last_of_other_bucket:
  assumes "feedIdByView (subscriptionState w) v \<noteq> []"
    and "fid \<notin> set (feedIdByView (subscriptionState w) v)"
  shows "feedIdByView (subscriptionState w) v =
           feedIdByView (subscriptionState (snd (unfollow acts getFeedById mutationOk fid w))) v
             @ [last (feedIdByView (subscriptionState w) v)]
         \<and> last (feedIdByView (subscriptionState w) v) \<noteq> fid"
proof -
  let ?b = "feedIdByView (subscriptionState w) v"
  have "feedIdByView (subscriptionState (snd (unfollow acts getFeedById mutationOk fid w))) v
          = butlast ?b"
    using assms(2) by (simp add: unfollow_subscriptionState unfollow_draft_def splice1_indexOf)
  moreover have "last ?b \<in> set ?b" using assms(1) by simp
  ultimately show ?thesis using assms by auto
qed

text \<open>
  With \<^verbatim>\<open>f1\<close> in Articles and \<^verbatim>\<open>f2\<close> in Videos, unfollowing \<^verbatim>\<open>f1\<close> empties the Videos
  bucket, while the subscription \<^verbatim>\<open>f2\<close> stays in the data map.
\<close>

theorem unfollow_drops_last_of_other_bucket_witness:
  "feedIdByView (subscriptionState (sampleStores
       (upsertMany [sampleSubscription ''f1'' Articles None, sampleSubscription ''f2'' Videos None]
          initialState))) Videos = [''f2'']
   \<and> feedIdByView (subscriptionState (snd (unfollow sampleActions (\<lambda>_. None) True ''f1''
       (sampleStores
          (upsertMany [sampleSubscription ''f1'' Articles None, sampleSubscription ''f2'' Videos None]
             initialState))))) Videos = []
   \<and> map_of (data (subscriptionState (snd (unfollow sampleActions (\<lambda>_. None) True ''f1''
       (sampleStores
          (upsertMany [sampleSubscription ''f1'' Articles None, sampleSubscription ''f2'' Videos None]
             initialState)))))) ''f2''
       = Some (sampleSubscription ''f2'' Videos None)"
  using unfollow_drops_last_of_other_bucket [of "sampleStores
       (upsertMany [sampleSubscription ''f1'' Articles None, sampleSubscription ''f2'' Videos None]
          initialState)" Videos "''f1''" sampleActions "\<lambda>_. None" True]
  by (simp add: sampleStores_def upsertMany_def upsertOne_def initialState_def emptyDataIdByView_def
        sampleSubscription_def unfollow_subscriptionState unfollow_draft_def)

text \<open>
  Claim C2, as stated, fails: \<^verbatim>\<open>splice\<close> removes one occurrence.  After the same
  subscription has been upserted twice, its feed id is twice in the Articles bucket, and
  \<^verbatim>\<open>unfollow\<close> leaves one of the two behind.
\<close>

theorem unfollow_leaves_second_occurrence:
  "''f1'' \<in> set (feedIdByView (subscriptionState (snd (unfollow sampleActions (\<lambda>_. None) True ''f1''
      (sampleStores (upsertMany [sampleSubscription ''f1'' Articles None]
         (upsertMany [sampleSubscription ''f1'' Articles None] initialState)))))) Articles)"
  by (simp add: sampleStores_def upsertMany_def upsertOne_def initialState_def emptyDataIdByView_def
        sampleSubscription_def unfollow_subscriptionState unfollow_draft_def splice1_def)

text \<open>
  Claim C2, amended.  For every state and feed id, after \<^verbatim>\<open>unfollow(feedId)\<close> the data map
  has no entry for \<^verbatim>\<open>feedId\<close>, and no view bucket in which \<^verbatim>\<open>feedId\<close> occurred at most once
  contains it, whichever bucket that was; this holds whether the remote delete succeeds
  (\<open>mutationOk\<close>) or fails.  The removal from the data map needs nothing of the buckets.
\<close>

theorem unfollow_removes:
  "map_of (data (subscriptionState (snd (unfollow acts getFeedById mutationOk fid w)))) fid = None
   \<and> (count_list (feedIdByView (subscriptionState w) v) fid \<le> 1 \<longrightarrow>
        fid \<notin> set (feedIdByView (subscriptionState (snd (unfollow acts getFeedById mutationOk fid w))) v))"
  by (simp add: unfollow_subscriptionState unfollow_draft_def AList.delete_conv' notin_splice1_indexOf)

text \<open>The spec's scenario: \<^verbatim>\<open>f1\<close> is in the Articles bucket and the remote delete fails.\<close>

theorem unfollow_removes_witness:
  "count_list (feedIdByView (subscriptionState (sampleStores
       (upsertMany [sampleSubscription ''f1'' Articles None] initialState))) Articles) ''f1'' \<le> 1
   \<and> map_of (data (subscriptionState (snd (unfollow sampleActions (\<lambda>_. None) False ''f1''
       (sampleStores (upsertMany [sampleSubscription ''f1'' Articles None] initialState)))))) ''f1'' = None
   \<and> ''f1'' \<notin> set (feedIdByView (subscriptionState (snd (unfollow sampleActions (\<lambda>_. None) False ''f1''
       (sampleStores (upsertMany [sampleSubscription ''f1'' Articles None] initialState))))) Articles)"
proof -
  have once: "count_list (feedIdByView (subscriptionState (sampleStores
       (upsertMany [sampleSubscription ''f1'' Articles None] initialState))) Articles) ''f1'' \<le> 1"
    by (simp add: sampleStores_def upsertMany_def upsertOne_def initialState_def
          emptyDataIdByView_def sampleSubscription_def)
  with unfollow_removes [of sampleActions "\<lambda>_. None" False "''f1''" "sampleStores
       (upsertMany [sampleSubscription ''f1'' Articles None] initialState)" Articles]
  show ?thesis by blast
qed

section \<open>Remote-first actions\<close>

text \<open>
  Claim C4.  When the remote call of \<^verbatim>\<open>markReadByView\<close>, \<^verbatim>\<open>markReadByFeedIds\<close> or
  \<^verbatim>\<open>deleteCategory\<close> fails, no local effect is applied: the subscription state, the
  unread counts and the entry store are what they were before the call.  For
  \<^verbatim>\<open>deleteCategory\<close> this rests on the options it passes; for the two others, which pass
  none, on the helper as the spec describes it.
\<close>

theorem remote_failure_no_local_effect:
  "markReadByView acts False v flt w = w
   \<and> markReadByFeedIds acts False fids viewArg flt w = w
   \<and> deleteCategory getFeedById parse False ids state = (Inl RemoteRejected, state)"
  by (simp add: markReadByView_def markReadByFeedIds_def deleteCategory_def
        doMutationAndTransaction_def)

text \<open>
  On the sample stores a failed \<^verbatim>\<open>markReadByView\<close> changes nothing, while a successful one
  sets the unread count of \<^verbatim>\<open>f1\<close> to 0 and marks its entry read.
\<close>

theorem remote_failure_no_local_effect_witness:
  "markReadByView sampleActions False Articles None
       (sampleStores (upsertMany [sampleSubscription ''f1'' Articles (Some ''Tech'')] initialState))
     = sampleStores (upsertMany [sampleSubscription ''f1'' Articles (Some ''Tech'')] initialState)
   \<and> unreadStore (markReadByView sampleActions True Articles None
       (sampleStores (upsertMany [sampleSubscription ''f1'' Articles (Some ''Tech'')] initialState)))
     = [(''f1'', 0)]
   \<and> entryStore (markReadByView sampleActions True Articles None
       (sampleStores (upsertMany [sampleSubscription ''f1'' Articles (Some ''Tech'')] initialState)))
     = [(''f1'', True)]"
  using remote_failure_no_local_effect [of sampleActions Articles None
      "sampleStores (upsertMany [sampleSubscription ''f1'' Articles (Some ''Tech'')] initialState)"]
  by (simp add: markReadByView_def markReadByView_transaction_def doMutationAndTransaction_def
        sampleStores_def sampleActions_def upsertMany_def upsertOne_def initialState_def
        emptyDataIdByView_def sampleSubscription_def)

section \<open>renameCategory\<close>

lemma map_of_renameCategory_one:
  "map_of (renameCategory_one n k d) =
     (map_of d)(k := map_option (\<lambda>s. s\<lparr>category := Some n, defaultCategory := None\<rparr>) (map_of d k))"
  by (cases "map_of d k") (auto simp: renameCategory_one_def AList.update_conv')

lemma renameCategory_state:
  "snd (renameCategory mutationOk a b state) =
     state\<lparr>data := fold (renameCategory_one b)
       (filter (\<lambda>fid. case map_of (data state) fid of None \<Rightarrow> False | Some s \<Rightarrow> inCategory a s)
          (map fst (data state))) (data state)\<rparr>"
  by (simp add: renameCategory_def doMutationAndTransaction_def Let_def)

text \<open>
  Claim C5.  After \<^verbatim>\<open>renameCategory(A, B)\<close> every subscription whose category or default
  category was \<open>A\<close> has category \<open>B\<close> and an undefined default category.  The state is
  the same whether the remote call succeeds or fails (\<open>mutationOk\<close>): the update is
  applied before the remote call is made.
\<close>

theorem renameCategory_renames:
  assumes "map_of (data state) fid = Some s" and "inCategory lastCategory s"
  shows "map_of (data (snd (renameCategory mutationOk lastCategory newCategory state))) fid =
           Some (s\<lparr>category := Some newCategory, defaultCategory := None\<rparr>)"
proof -
  from assms(1) have "fid \<in> set (map fst (data state))"
    by (metis map_of_eq_None_iff option.distinct(1) set_map)
  with assms show ?thesis
    by (simp add: renameCategory_state map_of_fold_each [OF map_of_renameCategory_one])
qed

text \<open>A subscription matched by its default category, renamed while the remote call fails.\<close>

theorem renameCategory_renames_witness:
  "map_of (data \<lparr>data = [(''f1'', \<lparr>feedId = ''f1'', view = Articles, category = None,
                                   defaultCategory = Some ''Example.com''\<rparr>)],
                 feedIdByView = emptyDataIdByView(Articles := [''f1''])\<rparr>) ''f1''
     = Some \<lparr>feedId = ''f1'', view = Articles, category = None, defaultCategory = Some ''Example.com''\<rparr>
   \<and> inCategory ''Example.com''
        \<lparr>feedId = ''f1'', view = Articles, category = None, defaultCategory = Some ''Example.com''\<rparr>
   \<and> map_of (data (snd (renameCategory False ''Example.com'' ''News''
        \<lparr>data = [(''f1'', \<lparr>feedId = ''f1'', view = Articles, category = None,
                            defaultCategory = Some ''Example.com''\<rparr>)],
          feedIdByView = emptyDataIdByView(Articles := [''f1''])\<rparr>))) ''f1''
     = Some \<lparr>feedId = ''f1'', view = Articles, category = Some ''News'', defaultCategory = None\<rparr>"
  using renameCategory_renames [of
      "\<lparr>data = [(''f1'', \<lparr>feedId = ''f1'', view = Articles, category = None,
                          defaultCategory = Some ''Example.com''\<rparr>)],
        feedIdByView = emptyDataIdByView(Articles := [''f1''])\<rparr>" "''f1''"
      "\<lparr>feedId = ''f1'', view = Articles, category = None, defaultCategory = Some ''Example.com''\<rparr>"
      "''Example.com''" False "''News''"]
  by (simp add: inCategory_def)

section \<open>upsertMany and fetchByView\<close>

lemma morphSubscription_base:
  "feedId (morphSubscription parse s) = feedId s"
  "view (morphSubscription parse s) = view s"
  "category (morphSubscription parse s) = category s"
  by (simp_all add: morphSubscription_def Let_def)

lemma morphResponseData_map: "morphResponseData parse xs = map (morphSubscription parse) xs"
  by (induction xs) simp_all

lemma upsertMany_buckets:
  "feedIdByView (upsertMany subs state) v =
     feedIdByView state v @ map feedId (filter (\<lambda>s. view s = v) subs)"
  unfolding upsertMany_def
  by (induction subs arbitrary: state) (simp_all add: upsertOne_def)

lemma upsertMany_data_other:
  "fid \<notin> feedId ` set subs \<Longrightarrow> map_of (data (upsertMany subs state)) fid = map_of (data state) fid"
  unfolding upsertMany_def
  by (induction subs arbitrary: state) (simp_all add: upsertOne_def AList.update_conv')

lemma upsertMany_append:
  "upsertMany (xs @ ys) state = upsertMany ys (upsertMany xs state)"
  by (simp add: upsertMany_def)

text \<open>The entry of a feed id is the last subscription upserted for it.\<close>

lemma upsertMany_data_last:
  assumes "feedId s \<notin> feedId ` set post"
  shows "map_of (data (upsertMany (pre @ s # post) state)) (feedId s) = Some s"
proof -
  have "upsertMany (pre @ s # post) state = upsertMany post (upsertOne s (upsertMany pre state))"
    by (simp add: upsertMany_def)
  then have "map_of (data (upsertMany (pre @ s # post) state)) (feedId s) =
               map_of (data (upsertOne s (upsertMany pre state))) (feedId s)"
    using assms by (simp add: upsertMany_data_other)
  then show ?thesis by (simp add: upsertOne_def AList.update_conv')
qed

lemma upsertMany_data_some:
  "fid \<in> feedId ` set subs \<Longrightarrow>
     \<exists>s \<in> set subs. feedId s = fid \<and> map_of (data (upsertMany subs state)) fid = Some s"
proof (induction subs arbitrary: state)
  case Nil
  then show ?case by simp
next
  case (Cons a subs)
  have step: "upsertMany (a # subs) state = upsertMany subs (upsertOne a state)"
    by (simp add: upsertMany_def)
  show ?case
  proof (cases "fid \<in> feedId ` set subs")
    case True
    from Cons.IH [OF True, of "upsertOne a state"] show ?thesis
      unfolding step by auto
  next
    case False
    with Cons.prems have fid: "fid = feedId a" by auto
    from False have "map_of (data (upsertMany subs (upsertOne a state))) fid =
                       map_of (data (upsertOne a state)) fid"
      by (rule upsertMany_data_other)
    also have "\<dots> = Some a"
      by (simp add: fid upsertOne_def AList.update_conv')
    finally show ?thesis unfolding step using fid by auto
  qed
qed

lemma fetchByView_state:
  "snd (fetchByView parse viewArg (Inr resData) state) =
     upsertMany (map (morphSubscription parse) resData)
       (case viewArg of
          Some v \<Rightarrow> state\<lparr>feedIdByView := (feedIdByView state)(v := [])\<rparr>
        | None \<Rightarrow> state\<lparr>feedIdByView := emptyDataIdByView\<rparr>)"
  by (simp add: fetchByView_def morphResponseData_map Let_def)

text \<open>
  What \<^verbatim>\<open>fetchByView\<close> leaves in the data map for a record of the response that no later
  record of the response shares its feed id with.
\<close>

lemma fetchByView_stores:
  assumes "resData = pre @ s # post" and "feedId s \<notin> feedId ` set post"
  shows "map_of (data (snd (fetchByView parse viewArg (Inr resData) state))) (feedId s) =
           Some (morphSubscription parse s)"
proof -
  let ?m = "morphSubscription parse"
  have "feedId (?m s) \<notin> feedId ` set (map ?m post)"
    using assms(2) by (simp add: image_image morphSubscription_base)
  then have "map_of (data (upsertMany (map ?m pre @ ?m s # map ?m post) st)) (feedId (?m s)) =
               Some (?m s)" for st
    by (rule upsertMany_data_last)
  then show ?thesis by (simp add: fetchByView_state assms(1) morphSubscription_base)
qed

text \<open>
  Claim C10, amended.  A fetched subscription with no category and no feeds record, which
  no later record of the response shares its feed id with, is stored with an undefined
  default category: the fallback to the feed id is applied only when a feeds record is
  present.
\<close>

theorem fetchByView_no_feeds_no_defaultCategory:
  assumes "resData = pre @ s # post" and "feedId s \<notin> feedId ` set post"
    and "\<not> truthy (category s)" and "feeds s = None"
  shows "map_of (data (snd (fetchByView parse viewArg (Inr resData) state))) (feedId s) =
           Some \<lparr>feedId = feedId s, view = view s, category = category s, defaultCategory = None\<rparr>"
  using assms(3,4) fetchByView_stores [OF assms(1,2), of parse viewArg state]
  by (simp add: morphSubscription_def)

text \<open>
  Claim C8, amended.  For every fetched subscription that lacks a category and carries a
  feeds record, and which no later record of the response shares its feed id with,
  \<^verbatim>\<open>fetchByView\<close> stores as default category the capitalized registrable domain of the
  feed's site URL, and the feed id when there is no site URL or no domain can be parsed.
  In the scenario of the spec the stored default category is \<^verbatim>\<open>Example.com\<close>, the
  capitalized registrable domain \<^verbatim>\<open>example.com\<close>.
\<close>

theorem fetchByView_defaultCategory:
  assumes "resData = pre @ s # post" and "feedId s \<notin> feedId ` set post"
    and "\<not> truthy (category s)" and "feeds s = Some fd"
  shows "map_of (data (snd (fetchByView parse viewArg (Inr resData) state))) (feedId s) =
           Some \<lparr>feedId = feedId s, view = view s, category = category s,
                 defaultCategory =
                   Some (if truthy (siteUrl fd) \<and> truthy (parse (the (siteUrl fd)))
                         then capitalizeFirstLetter (the (parse (the (siteUrl fd))))
                         else feedId s)\<rparr>"
  using assms(3,4) fetchByView_stores [OF assms(1,2), of parse viewArg state]
  by (simp add: morphSubscription_def Let_def)

text \<open>After \<^verbatim>\<open>fetchByView(undefined)\<close> a bucket lists the response's feed ids of its view.\<close>

lemma fetchByView_all_bucket_list:
  "feedIdByView (snd (fetchByView parse None (Inr resData) state)) v =
     map feedId (filter (\<lambda>s. view s = v) resData)"
  by (simp add: fetchByView_state upsertMany_buckets emptyDataIdByView_def filter_map comp_def
        morphSubscription_base)

text \<open>
  Claim C1, amended.  For every API response in which records with equal feed ids carry
  equal views, after \<^verbatim>\<open>fetchByView(undefined)\<close> every view bucket holds exactly the fetched
  feed ids whose stored view is the bucket's key; when every key of the data map before
  the fetch is in the response (as when the map was empty), these are all the feed ids of
  the data map with that view.
\<close>

theorem fetchByView_all_buckets:
  assumes "\<forall>s \<in> set resData. \<forall>t \<in> set resData. feedId s = feedId t \<longrightarrow> view s = view t"
  shows "set (feedIdByView (snd (fetchByView parse None (Inr resData) state)) v) =
           {fid \<in> feedId ` set resData.
              viewOf (snd (fetchByView parse None (Inr resData) state)) fid = Some v}
         \<and> (fst ` set (data state) \<subseteq> feedId ` set resData \<longrightarrow>
              set (feedIdByView (snd (fetchByView parse None (Inr resData) state)) v) =
                {fid. viewOf (snd (fetchByView parse None (Inr resData) state)) fid = Some v})"
proof -
  define st where "st = snd (fetchByView parse None (Inr resData) state)"
  have stored: "viewOf st (feedId s) = Some (view s)" if s: "s \<in> set resData" for s
  proof -
    from s have "feedId s \<in> feedId ` set (map (morphSubscription parse) resData)"
      by (simp add: image_image morphSubscription_base)
    from upsertMany_data_some [OF this]
    obtain m where m: "m \<in> set (map (morphSubscription parse) resData)" "feedId m = feedId s"
      and entry: "map_of (data st) (feedId s) = Some m"
      unfolding st_def fetchByView_state by blast
    from m(1) obtain t where t: "t \<in> set resData" "m = morphSubscription parse t" by auto
    with m(2) have "feedId t = feedId s" by (simp add: morphSubscription_base)
    with assms s t(1) have "view t = view s" by blast
    with entry t(2) show ?thesis by (simp add: viewOf_def morphSubscription_base)
  qed
  have bucket: "set (feedIdByView st v) = feedId ` {s \<in> set resData. view s = v}"
    by (simp add: st_def fetchByView_all_bucket_list)
  have first: "set (feedIdByView st v) = {fid \<in> feedId ` set resData. viewOf st fid = Some v}"
  proof (intro set_eqI iffI)
    fix fid assume "fid \<in> set (feedIdByView st v)"
    then obtain s where "s \<in> set resData" "view s = v" "fid = feedId s"
      unfolding bucket by blast
    then show "fid \<in> {fid \<in> feedId ` set resData. viewOf st fid = Some v}"
      using stored [of s] by simp
  next
    fix fid assume "fid \<in> {fid \<in> feedId ` set resData. viewOf st fid = Some v}"
    then obtain s where s: "s \<in> set resData" "fid = feedId s" and v: "viewOf st fid = Some v"
      by blast
    from s v stored [of s] have "view s = v" by simp
    with s show "fid \<in> set (feedIdByView st v)" unfolding bucket by blast
  qed
  have other: "viewOf st fid = None"
    if "fid \<notin> feedId ` set resData" "fid \<notin> fst ` set (data state)" for fid
  proof -
    have "fid \<notin> feedId ` set (map (morphSubscription parse) resData)"
      using that(1) by (simp add: image_image morphSubscription_base)
    then have "map_of (data st) fid = map_of (data state) fid"
      unfolding st_def fetchByView_state by (rule upsertMany_data_other [THEN trans]) simp
    with that(2) show ?thesis by (simp add: viewOf_def map_of_eq_None_iff)
  qed
  have second: "set (feedIdByView st v) = {fid. viewOf st fid = Some v}"
    if sub: "fst ` set (data state) \<subseteq> feedId ` set resData"
  proof -
    have "fid \<in> feedId ` set resData" if "viewOf st fid = Some v" for fid
    proof (rule ccontr)
      assume "fid \<notin> feedId ` set resData"
      with sub have "viewOf st fid = None" by (intro other) auto
      with that show False by simp
    qed
    then have "{fid \<in> feedId ` set resData. viewOf st fid = Some v} = {fid. viewOf st fid = Some v}"
      by blast
    with first show ?thesis by simp
  qed
  from first second show ?thesis unfolding st_def by blast
qed

lemma toUpperCase_e: "toUpperCase (CHR ''e'') = CHR ''E''"
  by code_simp

text \<open>
  Claim C1, as stated, fails in two ways.  \<^verbatim>\<open>fetchByView\<close> resets the buckets and keeps the
  data map: an entry that the response no longer mentions stays in the data map with its
  view and is in no bucket.  And when the response holds a feed id twice, with two views,
  the feed id is pushed onto both buckets while the data map keeps the later view: it is
  in the Articles bucket with the stored view Videos.
\<close>

theorem fetchByView_all_stale_entry:
  "viewOf (snd (fetchByView sampleParse None (Inr [])
       (upsertMany [sampleSubscription ''f0'' Articles None] initialState))) ''f0'' = Some Articles
   \<and> ''f0'' \<notin> set (feedIdByView (snd (fetchByView sampleParse None (Inr [])
       (upsertMany [sampleSubscription ''f0'' Articles None] initialState))) Articles)
   \<and> ''f1'' \<in> set (feedIdByView (snd (fetchByView sampleParse None
       (Inr [\<lparr>feedId = ''f1'', view = Articles, category = None, feeds = None\<rparr>,
             \<lparr>feedId = ''f1'', view = Videos, category = None, feeds = None\<rparr>])
       initialState)) Articles)
   \<and> viewOf (snd (fetchByView sampleParse None
       (Inr [\<lparr>feedId = ''f1'', view = Articles, category = None, feeds = None\<rparr>,
             \<lparr>feedId = ''f1'', view = Videos, category = None, feeds = None\<rparr>])
       initialState)) ''f1'' = Some Videos"
  by (simp add: fetchByView_def viewOf_def morphSubscription_def upsertMany_def upsertOne_def
        initialState_def emptyDataIdByView_def sampleSubscription_def)

text \<open>
  A response that holds the record of \<^verbatim>\<open>f1\<close> twice, and the record of \<^verbatim>\<open>f2\<close>, fetched into
  the initial state.
\<close>

theorem fetchByView_all_buckets_witness:
  "set (feedIdByView (snd (fetchByView sampleParse None
        (Inr (hd sampleResponse # sampleResponse)) initialState)) Articles)
       = {fid \<in> feedId ` set (hd sampleResponse # sampleResponse).
            viewOf (snd (fetchByView sampleParse None
              (Inr (hd sampleResponse # sampleResponse)) initialState)) fid = Some Articles}
   \<and> feedIdByView (snd (fetchByView sampleParse None
        (Inr (hd sampleResponse # sampleResponse)) initialState)) Articles = [''f1'', ''f1'']"
proof -
  have h: "\<forall>s \<in> set (hd sampleResponse # sampleResponse).
      \<forall>t \<in> set (hd sampleResponse # sampleResponse). feedId s = feedId t \<longrightarrow> view s = view t"
    by (simp add: sampleResponse_def)
  have "feedIdByView (snd (fetchByView sampleParse None
        (Inr (hd sampleResponse # sampleResponse)) initialState)) Articles = [''f1'', ''f1'']"
    by (simp add: fetchByView_all_bucket_list sampleResponse_def)
  with fetchByView_all_buckets [OF h, of sampleParse initialState Articles] show ?thesis
    by blast
qed

text \<open>
  Claim C8, as stated, fails on the sample response: \<^verbatim>\<open>f2\<close>, which has no category and no
  feeds record, gets no default category (not its feed id), and \<^verbatim>\<open>f1\<close>, the subscription
  of the scenario, gets \<^verbatim>\<open>Example.com\<close> (not \<^verbatim>\<open>Example\<close>).  It also fails for a record that
  a later record of the same feed id overwrites: the scenario's record followed by one
  without a feeds record leaves \<^verbatim>\<open>f1\<close> with no default category.
\<close>

theorem fetchByView_defaultCategory_counterexample:
  "map_of (data (snd (fetchByView sampleParse None (Inr sampleResponse) initialState))) ''f2''
     = Some \<lparr>feedId = ''f2'', view = Videos, category = None, defaultCategory = None\<rparr>
   \<and> map_of (data (snd (fetchByView sampleParse None (Inr sampleResponse) initialState))) ''f1''
     = Some \<lparr>feedId = ''f1'', view = Articles, category = None, defaultCategory = Some ''Example.com''\<rparr>
   \<and> map_of (data (snd (fetchByView sampleParse None
        (Inr [\<lparr>feedId = ''f1'', view = Articles, category = None,
               feeds = Some \<lparr>siteUrl = Some ''https://blog.example.com''\<rparr>\<rparr>,
              \<lparr>feedId = ''f1'', view = Articles, category = None, feeds = None\<rparr>])
        initialState))) ''f1''
     = Some \<lparr>feedId = ''f1'', view = Articles, category = None, defaultCategory = None\<rparr>"
  by (simp add: fetchByView_def sampleResponse_def sampleParse_def morphSubscription_def
        upsertMany_def upsertOne_def initialState_def emptyDataIdByView_def toUpperCase_e)

text \<open>The scenario of the spec: the first record of the sample response.\<close>

theorem fetchByView_defaultCategory_witness:
  "sampleResponse = [] @ \<lparr>feedId = ''f1'', view = Articles, category = None,
       feeds = Some \<lparr>siteUrl = Some ''https://blog.example.com''\<rparr>\<rparr>
       # [\<lparr>feedId = ''f2'', view = Videos, category = None, feeds = None\<rparr>]
   \<and> ''f1'' \<notin> feedId ` set [\<lparr>feedId = ''f2'', view = Videos, category = None, feeds = None\<rparr>]
   \<and> map_of (data (snd (fetchByView sampleParse None (Inr sampleResponse) initialState))) ''f1''
     = Some \<lparr>feedId = ''f1'', view = Articles, category = None, defaultCategory = Some ''Example.com''\<rparr>"
  using fetchByView_defaultCategory [of sampleResponse "[]"
      "\<lparr>feedId = ''f1'', view = Articles, category = None,
        feeds = Some \<lparr>siteUrl = Some ''https://blog.example.com''\<rparr>\<rparr>"
      "[\<lparr>feedId = ''f2'', view = Videos, category = None, feeds = None\<rparr>]"
      "\<lparr>siteUrl = Some ''https://blog.example.com''\<rparr>" sampleParse None initialState]
  by (simp add: sampleResponse_def sampleParse_def toUpperCase_e)

text \<open>
  Claim C10, as stated, fails for a record that a later record of the same feed id
  overwrites: \<^verbatim>\<open>f1\<close> is fetched without category and feeds record, then again with a feeds
  record that has no site URL, and is stored with its feed id as default category.
\<close>

theorem fetchByView_no_feeds_overwritten:
  "map_of (data (snd (fetchByView sampleParse None
        (Inr [\<lparr>feedId = ''f1'', view = Articles, category = None, feeds = None\<rparr>,
              \<lparr>feedId = ''f1'', view = Articles, category = None,
               feeds = Some \<lparr>siteUrl = None\<rparr>\<rparr>])
        initialState))) ''f1''
     = Some \<lparr>feedId = ''f1'', view = Articles, category = None, defaultCategory = Some ''f1''\<rparr>"
  by (simp add: fetchByView_def morphSubscription_def upsertMany_def upsertOne_def
        initialState_def emptyDataIdByView_def)

text \<open>The second, and last, record of the sample response.\<close>

theorem fetchByView_no_feeds_no_defaultCategory_witness:
  "sampleResponse = [\<lparr>feedId = ''f1'', view = Articles, category = None,
       feeds = Some \<lparr>siteUrl = Some ''https://blog.example.com''\<rparr>\<rparr>]
       @ \<lparr>feedId = ''f2'', view = Videos, category = None, feeds = None\<rparr> # []
   \<and> ''f2'' \<notin> feedId ` set ([] :: SubscriptionModel list)
   \<and> map_of (data (snd (fetchByView sampleParse None (Inr sampleResponse) initialState))) ''f2''
     = Some \<lparr>feedId = ''f2'', view = Videos, category = None, defaultCategory = None\<rparr>"
  using fetchByView_no_feeds_no_defaultCategory [of sampleResponse
      "[\<lparr>feedId = ''f1'', view = Articles, category = None,
         feeds = Some \<lparr>siteUrl = Some ''https://blog.example.com''\<rparr>\<rparr>]"
      "\<lparr>feedId = ''f2'', view = Videos, category = None, feeds = None\<rparr>" "[]"
      sampleParse None initialState]
  by (simp add: sampleResponse_def)

section \<open>deleteCategory\<close>

text \<open>What one round does to the entry of its key.\<close>

lemma map_of_deleteCategory_one:
  "map_of (deleteCategory_one getFeedById parse ids k d) =
     (map_of d)(k := map_option
        (\<lambda>s. if k \<in> set ids then
                (case getFeedById (feedId s) of
                   None \<Rightarrow> s
                 | Some feed \<Rightarrow>
                     if \<not> truthy (siteUrl feed) then s
                     else s\<lparr>category := None,
                            defaultCategory :=
                              (if truthy (parse (the (siteUrl feed)))
                               then Some (capitalizeFirstLetter (the (parse (the (siteUrl feed)))))
                               else defaultCategory s)\<rparr>)
              else s)
        (map_of d k))"
  by (cases "map_of d k")
     (auto simp: deleteCategory_one_def AList.update_conv' Let_def map_upd_triv fun_upd_idem
           split: option.splits)


lemma deleteCategory_state:
  "snd (deleteCategory getFeedById parse True ids state) =
     state\<lparr>data := fold (deleteCategory_one getFeedById parse ids) (map fst (data state)) (data state)\<rparr>"
  by (simp add: deleteCategory_def doMutationAndTransaction_def deleteCategory_transaction_def)

text \<open>
  When the feed of a listed subscription is in the feed store and has a site URL, a
  successful \<^verbatim>\<open>deleteCategory\<close> clears the category and sets the default category to the
  capitalized domain when one can be parsed.
\<close>

lemma deleteCategory_clears:
  assumes "map_of (data state) fid = Some s" and "fid \<in> set ids"
    and "getFeedById (feedId s) = Some feed" and "truthy (siteUrl feed)"
  shows "map_of (data (snd (deleteCategory getFeedById parse True ids state))) fid =
           Some (s\<lparr>category := None,
                   defaultCategory :=
                     (if truthy (parse (the (siteUrl feed)))
                      then Some (capitalizeFirstLetter (the (parse (the (siteUrl feed)))))
                      else defaultCategory s)\<rparr>)"
proof -
  from assms(1) have "fid \<in> set (map fst (data state))"
    by (metis map_of_eq_None_iff option.distinct(1) set_map)
  then have "map_of (data (snd (deleteCategory getFeedById parse True ids state))) fid =
               map_option
                 (\<lambda>s. if fid \<in> set ids then
                         (case getFeedById (feedId s) of
                            None \<Rightarrow> s
                          | Some feed \<Rightarrow>
                              if \<not> truthy (siteUrl feed) then s
                              else s\<lparr>category := None,
                                     defaultCategory :=
                                       (if truthy (parse (the (siteUrl feed)))
                                        then Some (capitalizeFirstLetter (the (parse (the (siteUrl feed)))))
                                        else defaultCategory s)\<rparr>)
                       else s)
                 (map_of (data state) fid)"
    unfolding deleteCategory_state
    by (simp add: map_of_fold_each [OF map_of_deleteCategory_one] split: option.splits)
  with assms show ?thesis by simp
qed

text \<open>
  Claim C7: after a successful \<^verbatim>\<open>deleteCategory(ids)\<close> every subscription whose feed id is
  in \<^verbatim>\<open>ids\<close> has its category cleared.  The code does not do this: when the feed has no
  site URL, or the feed store has no record of the feed, the round returns before
  \<^verbatim>\<open>subscription.category = null\<close>, and the subscription keeps its category although the
  remote call has removed it.
\<close>

theorem deleteCategory_keeps_category_without_siteUrl:
  "map_of (data (snd (deleteCategory (\<lambda>fid. Some \<lparr>siteUrl = None\<rparr>) sampleParse True [''f1'']
      (upsertMany [sampleSubscription ''f1'' Articles (Some ''Tech'')] initialState)))) ''f1''
     = Some \<lparr>feedId = ''f1'', view = Articles, category = Some ''Tech'', defaultCategory = None\<rparr>
   \<and> map_of (data (snd (deleteCategory (\<lambda>fid. None) sampleParse True [''f1'']
      (upsertMany [sampleSubscription ''f1'' Articles (Some ''Tech'')] initialState)))) ''f1''
     = Some \<lparr>feedId = ''f1'', view = Articles, category = Some ''Tech'', defaultCategory = None\<rparr>"
  by (simp add: deleteCategory_state deleteCategory_one_def upsertMany_def upsertOne_def
        initialState_def emptyDataIdByView_def sampleSubscription_def)

section \<open>changeCategoryView\<close>

text \<open>
  Splicing the elements that satisfy \<open>P\<close>, one after the other, out of an array leaves
  the elements that do not, in their order.
\<close>

lemma fold_splice_filter:
  "\<forall>x \<in> set pre. \<not> P x \<Longrightarrow>
     fold (\<lambda>f b. splice1 (indexOf b f) b) (filter P xs) (pre @ xs) = pre @ filter (\<lambda>x. \<not> P x) xs"
proof (induction xs arbitrary: pre)
  case Nil
  then show ?case by simp
next
  case (Cons x xs)
  show ?case
  proof (cases "P x")
    case True
    with Cons.prems have "x \<notin> set pre" by blast
    then have "splice1 (indexOf (pre @ x # xs) x) (pre @ x # xs) = pre @ xs"
      by (simp add: splice1_indexOf remove1_append)
    with True Cons.IH [OF Cons.prems] show ?thesis by simp
  next
    case False
    with Cons.prems have "\<forall>y \<in> set (pre @ [x]). \<not> P y" by simp
    from Cons.IH [OF this] False show ?thesis by simp
  qed
qed

lemma count_list_filter: "P x \<Longrightarrow> count_list (filter P xs) x = count_list xs x"
  by (induction xs) auto

text \<open>The loop, bucket by bucket, when the two views differ.\<close>

lemma changeCategoryView_fold_buckets:
  assumes "currentView \<noteq> changeToView"
  shows "feedIdByView (fold (changeCategoryView_one currentView changeToView) ids state) =
           (feedIdByView state)
             (currentView := fold (\<lambda>f b. splice1 (indexOf b f) b) ids (feedIdByView state currentView),
              changeToView := feedIdByView state changeToView @ ids)"
  using assms
  by (induction ids arbitrary: state) (auto simp: changeCategoryView_one_def Let_def fun_eq_iff)

lemma changeCategoryView_fold_data:
  "data (fold (changeCategoryView_one currentView changeToView) ids state) =
     fold (\<lambda>f d. case map_of d f of
                    None \<Rightarrow> d
                  | Some feed \<Rightarrow> AList.update f (feed\<lparr>view := changeToView\<rparr>) d) ids (data state)"
  by (induction ids arbitrary: state) (simp_all add: changeCategoryView_one_def Let_def)

lemma map_of_changeView_step:
  "map_of (case map_of d k of None \<Rightarrow> d | Some feed \<Rightarrow> AList.update k (feed\<lparr>view := w\<rparr>) d) =
     (map_of d)(k := map_option (\<lambda>s. s\<lparr>view := w\<rparr>) (map_of d k))"
  by (cases "map_of d k") (auto simp: AList.update_conv')

lemma changeCategoryView_ok:
  "list_all patchOk (folderFeedIds c currentView state) \<Longrightarrow>
     changeCategoryView patchOk c currentView changeToView state =
       (Inr (), fold (changeCategoryView_one currentView changeToView)
                  (folderFeedIds c currentView state) state)"
  by (simp add: changeCategoryView_def Let_def)

text \<open>
  Claim C6, amended.  When the two views differ and the remote patches succeed,
  \<^verbatim>\<open>changeCategoryView\<close> removes from the \<^verbatim>\<open>fromView\<close> bucket every feed id of that bucket
  whose subscription has the category or default category, appends these feed ids in
  bucket order to the \<^verbatim>\<open>toView\<close> bucket, and sets their stored view to \<^verbatim>\<open>toView\<close>;
  unmatched feed ids, their subscriptions and the other buckets stay as they are.  A
  matched feed id that was once in the \<^verbatim>\<open>fromView\<close> bucket and not in the \<^verbatim>\<open>toView\<close>
  bucket is in the \<^verbatim>\<open>toView\<close> bucket exactly once.
\<close>

theorem changeCategoryView_moves:
  assumes "currentView \<noteq> changeToView"
    and "list_all patchOk (folderFeedIds c currentView state)"
  shows "fst (changeCategoryView patchOk c currentView changeToView state) = Inr ()
    \<and> feedIdByView (snd (changeCategoryView patchOk c currentView changeToView state)) currentView =
        filter (\<lambda>fid. fid \<notin> set (folderFeedIds c currentView state)) (feedIdByView state currentView)
    \<and> feedIdByView (snd (changeCategoryView patchOk c currentView changeToView state)) changeToView =
        feedIdByView state changeToView @ folderFeedIds c currentView state
    \<and> (\<forall>v. v \<noteq> currentView \<and> v \<noteq> changeToView \<longrightarrow>
          feedIdByView (snd (changeCategoryView patchOk c currentView changeToView state)) v =
            feedIdByView state v)
    \<and> (\<forall>fid. map_of (data (snd (changeCategoryView patchOk c currentView changeToView state))) fid =
          (if fid \<in> set (folderFeedIds c currentView state)
           then map_option (\<lambda>s. s\<lparr>view := changeToView\<rparr>) (map_of (data state) fid)
           else map_of (data state) fid))
    \<and> (\<forall>fid \<in> set (folderFeedIds c currentView state).
          count_list (feedIdByView state currentView) fid = 1
          \<and> fid \<notin> set (feedIdByView state changeToView) \<longrightarrow>
          count_list (feedIdByView (snd (changeCategoryView patchOk c currentView changeToView state))
            changeToView) fid = 1)"
proof -
  define P where "P = (\<lambda>fid. case map_of (data state) fid of None \<Rightarrow> False | Some s \<Rightarrow> inCategory c s)"
  define ids where "ids = folderFeedIds c currentView state"
  define st where "st = snd (changeCategoryView patchOk c currentView changeToView state)"
  have ids: "ids = filter P (feedIdByView state currentView)"
    by (simp add: ids_def folderFeedIds_def P_def)
  have res: "changeCategoryView patchOk c currentView changeToView state =
               (Inr (), fold (changeCategoryView_one currentView changeToView) ids state)"
    unfolding ids_def using assms(2) by (rule changeCategoryView_ok)
  then have st: "st = fold (changeCategoryView_one currentView changeToView) ids state"
    by (simp add: st_def)
  have buckets: "feedIdByView st =
      (feedIdByView state)
        (currentView := fold (\<lambda>f b. splice1 (indexOf b f) b) ids (feedIdByView state currentView),
         changeToView := feedIdByView state changeToView @ ids)"
    unfolding st by (rule changeCategoryView_fold_buckets [OF assms(1)])
  have "fold (\<lambda>f b. splice1 (indexOf b f) b) ids ([] @ feedIdByView state currentView) =
          [] @ filter (\<lambda>x. \<not> P x) (feedIdByView state currentView)"
    unfolding ids by (rule fold_splice_filter) simp
  then have cur: "feedIdByView st currentView =
                    filter (\<lambda>x. \<not> P x) (feedIdByView state currentView)"
    using assms(1) by (simp add: buckets)
  have "filter (\<lambda>fid. fid \<notin> set ids) (feedIdByView state currentView) =
          filter (\<lambda>x. \<not> P x) (feedIdByView state currentView)"
    by (rule filter_cong) (auto simp: ids)
  with cur have c1: "feedIdByView st currentView =
                      filter (\<lambda>fid. fid \<notin> set ids) (feedIdByView state currentView)"
    by simp
  have c2: "feedIdByView st changeToView = feedIdByView state changeToView @ ids"
    by (simp add: buckets)
  have c3: "\<forall>v. v \<noteq> currentView \<and> v \<noteq> changeToView \<longrightarrow> feedIdByView st v = feedIdByView state v"
    by (simp add: buckets)
  have c4: "\<forall>fid. map_of (data st) fid =
              (if fid \<in> set ids then map_option (\<lambda>s. s\<lparr>view := changeToView\<rparr>) (map_of (data state) fid)
               else map_of (data state) fid)"
    unfolding st changeCategoryView_fold_data
    by (simp add: map_of_fold_each [OF map_of_changeView_step])
  have c5: "count_list (feedIdByView st changeToView) fid = 1"
    if "fid \<in> set ids" "count_list (feedIdByView state currentView) fid = 1"
       "fid \<notin> set (feedIdByView state changeToView)" for fid
  proof -
    from that(1) have "P fid" by (simp add: ids)
    then have "count_list ids fid = count_list (feedIdByView state currentView) fid"
      unfolding ids by (rule count_list_filter)
    with that show ?thesis by (simp add: c2 count_list_0_iff)
  qed
  from res c1 c2 c3 c4 c5 show ?thesis
    unfolding st_def ids_def by simp
qed


text \<open>
  Claim C6, as stated, fails in two ways.  With \<^verbatim>\<open>fromView = toView\<close> the matched feed
  id is spliced out and pushed back: it is still in the \<^verbatim>\<open>fromView\<close> bucket.  And a feed
  id that is twice in the \<^verbatim>\<open>fromView\<close> bucket (the same subscription upserted twice)
  arrives twice in the \<^verbatim>\<open>toView\<close> bucket.
\<close>

theorem changeCategoryView_not_exactly_once:
  "''f1'' \<in> set (feedIdByView (snd (changeCategoryView (\<lambda>_. True) ''Tech'' Articles Articles
       (upsertMany [sampleSubscription ''f1'' Articles (Some ''Tech'')] initialState))) Articles)
   \<and> feedIdByView (snd (changeCategoryView (\<lambda>_. True) ''Tech'' Articles Videos
       (upsertMany [sampleSubscription ''f1'' Articles (Some ''Tech'')]
          (upsertMany [sampleSubscription ''f1'' Articles (Some ''Tech'')] initialState)))) Videos
     = [''f1'', ''f1'']"
  by (simp add: changeCategoryView_def folderFeedIds_def inCategory_def changeCategoryView_one_def
        splice1_def upsertMany_def upsertOne_def initialState_def emptyDataIdByView_def
        sampleSubscription_def)

text \<open>The folder \<^verbatim>\<open>Tech\<close> holds \<^verbatim>\<open>f1\<close>; \<^verbatim>\<open>f2\<close> has no category and stays.\<close>

theorem changeCategoryView_moves_witness:
  "Articles \<noteq> Videos
   \<and> list_all (\<lambda>_. True) (folderFeedIds ''Tech'' Articles
        (upsertMany [sampleSubscription ''f1'' Articles (Some ''Tech''),
                     sampleSubscription ''f2'' Articles None] initialState))
   \<and> feedIdByView (snd (changeCategoryView (\<lambda>_. True) ''Tech'' Articles Videos
        (upsertMany [sampleSubscription ''f1'' Articles (Some ''Tech''),
                     sampleSubscription ''f2'' Articles None] initialState))) Articles = [''f2'']
   \<and> feedIdByView (snd (changeCategoryView (\<lambda>_. True) ''Tech'' Articles Videos
        (upsertMany [sampleSubscription ''f1'' Articles (Some ''Tech''),
                     sampleSubscription ''f2'' Articles None] initialState))) Videos = [''f1'']
   \<and> map_of (data (snd (changeCategoryView (\<lambda>_. True) ''Tech'' Articles Videos
        (upsertMany [sampleSubscription ''f1'' Articles (Some ''Tech''),
                     sampleSubscription ''f2'' Articles None] initialState)))) ''f1''
     = Some (sampleSubscription ''f1'' Videos (Some ''Tech''))"
proof -
  have folder: "folderFeedIds ''Tech'' Articles
        (upsertMany [sampleSubscription ''f1'' Articles (Some ''Tech''),
                     sampleSubscription ''f2'' Articles None] initialState) = [''f1'']"
    by (simp add: folderFeedIds_def inCategory_def upsertMany_def upsertOne_def initialState_def
          emptyDataIdByView_def sampleSubscription_def)
  have ok: "list_all (\<lambda>_. True) (folderFeedIds ''Tech'' Articles
        (upsertMany [sampleSubscription ''f1'' Articles (Some ''Tech''),
                     sampleSubscription ''f2'' Articles None] initialState))"
    by (simp add: folder)
  have ne: "Articles \<noteq> Videos" by simp
  note moved = changeCategoryView_moves [OF ne ok, unfolded folder]
  have "feedIdByView (upsertMany [sampleSubscription ''f1'' Articles (Some ''Tech''),
                     sampleSubscription ''f2'' Articles None] initialState) =
          (\<lambda>_. [])(Articles := [''f1'', ''f2''])"
    by (simp add: upsertMany_def upsertOne_def initialState_def emptyDataIdByView_def
          sampleSubscription_def)
  moreover have "map_of (data (upsertMany [sampleSubscription ''f1'' Articles (Some ''Tech''),
                     sampleSubscription ''f2'' Articles None] initialState)) ''f1'' =
          Some (sampleSubscription ''f1'' Articles (Some ''Tech''))"
    by (simp add: upsertMany_def upsertOne_def initialState_def sampleSubscription_def)
  ultimately show ?thesis using moved ok
    by (simp add: sampleSubscription_def)
qed

section \<open>The invariant under the actions\<close>
























end
